theory Spec2Isabelle
  imports
    Complex_Main
    "HOL-Library.AList"
    "HOL-Library.Char_ord"
    "HOL-Library.List_Lexorder"
    "HOL-Library.Multiset"
    "HOL-Library.Product_Lexorder"
    "HOL-Library.Sublist"
begin

section \<open>Values, documents and exceptions\<close>

text \<open>
  The backend keeps every entity as a Python dict and hands it to the document store.
  A dict is modelled as an association list (insertion order kept, as Python and BSON
  keep it); the values are the kinds of value the schemas of \<^verbatim>\<open>models.py\<close> and
  the seed data hold. A \<^verbatim>\<open>datetime\<close> is the integer reading of the clock, an
  \<^verbatim>\<open>ObjectId\<close> is its 24 digit hexadecimal form.
\<close>

datatype val =
    VNone
  | VBool bool
  | VInt int
  | VFloat rat
  | VStr string
  | VDate int
  | VOid string
  | VList "val list"
  | VDict "(string \<times> val) list"

type_synonym doc = "(string \<times> val) list"

text \<open>
  Everything the code can raise is a value: a fault of the store (any error of the
  driver on a round trip), the driver's duplicate key and write errors, bson's
  \<^verbatim>\<open>InvalidId\<close>, Python's \<^verbatim>\<open>KeyError\<close>, and FastAPI's
  \<^verbatim>\<open>HTTPException(status_code, detail)\<close>, which is a subclass of
  \<^verbatim>\<open>Exception\<close>. \<open>Unmodelled\<close> marks the one place where the model does not
  follow Python: \<^verbatim>\<open>str\<close> of an \<^verbatim>\<open>_id\<close> that is neither an ObjectId nor a
  string (no caller of this repository stores such an id).
\<close>

datatype exn =
    StoreFault
  | DuplicateKeyError
  | WriteError
  | InvalidId
  | KeyError string
  | Unmodelled
  | HTTPException nat string

text \<open>\<^verbatim>\<open>d[k] = v\<close>: replaces the value of an existing key in place, appends a new key.\<close>

definition doc_set :: "doc \<Rightarrow> string \<Rightarrow> val \<Rightarrow> doc" where
  "doc_set d k v = AList.update k v d"

text \<open>\<^verbatim>\<open>d[k]\<close>: raises KeyError on a missing key.\<close>

definition doc_getitem :: "doc \<Rightarrow> string \<Rightarrow> exn + val" where
  "doc_getitem d k = (case map_of d k of None \<Rightarrow> Inl (KeyError k) | Some v \<Rightarrow> Inr v)"

text \<open>\<^verbatim>\<open>d.get(k, default)\<close>: the default only when the key is missing.\<close>

definition doc_get :: "doc \<Rightarrow> string \<Rightarrow> val \<Rightarrow> val" where
  "doc_get d k dflt = (case map_of d k of None \<Rightarrow> dflt | Some v \<Rightarrow> v)"

text \<open>Python's truth value of a value, as \<^verbatim>\<open>if x:\<close> and \<^verbatim>\<open>x or y\<close> test it.\<close>

fun py_truthy :: "val \<Rightarrow> bool" where
  "py_truthy VNone = False"
| "py_truthy (VBool b) = b"
| "py_truthy (VInt i) = (i \<noteq> 0)"
| "py_truthy (VFloat q) = (q \<noteq> 0)"
| "py_truthy (VStr s) = (s \<noteq> [])"
| "py_truthy (VDate t) = True"
| "py_truthy (VOid s) = True"
| "py_truthy (VList l) = (l \<noteq> [])"
| "py_truthy (VDict d) = (d \<noteq> [])"

text \<open>\<^verbatim>\<open>x or y\<close>.\<close>

definition py_or :: "val \<Rightarrow> val \<Rightarrow> val" where
  "py_or x y = (if py_truthy x then x else y)"

text \<open>\<^verbatim>\<open>str(x)\<close> for the \<^verbatim>\<open>_id\<close> of a document.\<close>

fun str_val :: "val \<Rightarrow> exn + string" where
  "str_val (VOid s) = Inr s"
| "str_val (VStr s) = Inr s"
| "str_val v = Inl Unmodelled"

text \<open>
  \<^verbatim>\<open>bson.ObjectId(s)\<close> for a string: 24 hexadecimal digits, or InvalidId. Two
  ObjectIds are equal when their bytes are, so the digits are kept in lower case, the way
  \<^verbatim>\<open>str\<close> prints them.
\<close>

definition is_hex :: "char \<Rightarrow> bool" where
  "is_hex c = (c \<in> set ''0123456789abcdefABCDEF'')"

definition hex_lower :: "char \<Rightarrow> char" where
  "hex_lower c =
     (if c = CHR ''A'' then CHR ''a'' else if c = CHR ''B'' then CHR ''b''
      else if c = CHR ''C'' then CHR ''c'' else if c = CHR ''D'' then CHR ''d''
      else if c = CHR ''E'' then CHR ''e'' else if c = CHR ''F'' then CHR ''f'' else c)"

definition ObjectId :: "string \<Rightarrow> exn + val" where
  "ObjectId s =
     (if length s = 24 \<and> list_all is_hex s then Inr (VOid (map hex_lower s))
      else Inl InvalidId)"

text \<open>The ids the driver generates: the \<open>n\<close>-th one, 24 hexadecimal digits.\<close>

definition hex_digit :: "nat \<Rightarrow> char" where
  "hex_digit n = ''0123456789abcdef'' ! (n mod 16)"

fun hex :: "nat \<Rightarrow> nat \<Rightarrow> string" where
  "hex 0 n = []"
| "hex (Suc k) n = hex k (n div 16) @ [hex_digit n]"

definition oid_of_nat :: "nat \<Rightarrow> string" where
  "oid_of_nat n = hex 24 n"

section \<open>The world: store, fault schedule and clock\<close>

text \<open>
  The database has one collection per entity. Everything outside the program that
  decides what a call does is part of the state as well: \<open>faults\<close> says for each coming
  round trip to the store whether it raises (no entry: it succeeds), \<open>clock\<close> holds the
  coming readings of \<^verbatim>\<open>datetime.utcnow()\<close> (no entry: the last reading \<open>now\<close>
  again), and \<open>oids\<close> counts the ObjectIds the driver has generated.
\<close>

record world =
  profile :: "doc list"
  projects :: "doc list"
  contact_messages :: "doc list"
  analytics :: "doc list"
  visualizations :: "doc list"
  oids :: nat
  faults :: "bool list"
  clock :: "int list"
  now :: int

datatype coll_name =
  Coll_profile | Coll_projects | Coll_contact_messages | Coll_analytics | Coll_visualizations

fun coll :: "coll_name \<Rightarrow> world \<Rightarrow> doc list" where
  "coll Coll_profile w = profile w"
| "coll Coll_projects w = projects w"
| "coll Coll_contact_messages w = contact_messages w"
| "coll Coll_analytics w = analytics w"
| "coll Coll_visualizations w = visualizations w"

fun coll_put :: "coll_name \<Rightarrow> doc list \<Rightarrow> world \<Rightarrow> world" where
  "coll_put Coll_profile ds w = w\<lparr>profile := ds\<rparr>"
| "coll_put Coll_projects ds w = w\<lparr>projects := ds\<rparr>"
| "coll_put Coll_contact_messages ds w = w\<lparr>contact_messages := ds\<rparr>"
| "coll_put Coll_analytics ds w = w\<lparr>analytics := ds\<rparr>"
| "coll_put Coll_visualizations ds w = w\<lparr>visualizations := ds\<rparr>"

text \<open>
  A computation takes the world and returns a result or the exception it raised,
  with the world it leaves behind (what was written before a raise stays written).
\<close>

type_synonym 'a io = "world \<Rightarrow> (exn + 'a) \<times> world"

definition io_ret :: "'a \<Rightarrow> 'a io" where
  "io_ret x = (\<lambda>w. (Inr x, w))"

definition io_raise :: "exn \<Rightarrow> 'a io" where
  "io_raise e = (\<lambda>w. (Inl e, w))"

definition io_bind :: "'a io \<Rightarrow> ('a \<Rightarrow> 'b io) \<Rightarrow> 'b io" where
  "io_bind m f = (\<lambda>w. case m w of (Inl e, w') \<Rightarrow> (Inl e, w') | (Inr x, w') \<Rightarrow> f x w')"

text \<open>A pure step that can raise (a \<^verbatim>\<open>d[k]\<close>, a \<^verbatim>\<open>str\<close>, an \<^verbatim>\<open>ObjectId(s)\<close>).\<close>

definition io_of :: "exn + 'a \<Rightarrow> 'a io" where
  "io_of r = (\<lambda>w. (r, w))"

text \<open>\<^verbatim>\<open>try: m  except Exception as e: h e\<close>: every exception is an Exception.\<close>

definition try_except :: "'a io \<Rightarrow> (exn \<Rightarrow> 'a io) \<Rightarrow> 'a io" where
  "try_except m h = (\<lambda>w. case m w of (Inl e, w') \<Rightarrow> h e w' | (Inr x, w') \<Rightarrow> (Inr x, w'))"

text \<open>\<^verbatim>\<open>datetime.utcnow()\<close>: the next reading of the clock.\<close>

definition read_clock :: "world \<Rightarrow> int \<times> world" where
  "read_clock w =
     (case clock w of [] \<Rightarrow> (now w, w) | t # ts \<Rightarrow> (t, w\<lparr>clock := ts, now := t\<rparr>))"

definition utcnow :: "int io" where
  "utcnow = (\<lambda>w. (Inr (fst (read_clock w)), snd (read_clock w)))"

text \<open>One round trip to the store: it raises when the schedule says so.\<close>

definition next_fault :: "world \<Rightarrow> bool" where
  "next_fault w = (case faults w of [] \<Rightarrow> False | f # _ \<Rightarrow> f)"

definition round_trip :: "unit io" where
  "round_trip =
     (\<lambda>w. (if next_fault w then Inl StoreFault else Inr (), w\<lparr>faults := tl (faults w)\<rparr>))"

section \<open>The document store (the operations of the driver the gateway calls)\<close>

text \<open>
  A query is a dict of field values; a document matches when it has each field with
  that value (the fields queried here hold scalars: an id, a string, a boolean).
\<close>

definition matches :: "doc \<Rightarrow> doc \<Rightarrow> bool" where
  "matches q d = list_all (\<lambda>kv. map_of d (fst kv) = Some (snd kv)) q"

text \<open>
  The store sorts by the BSON comparison order of the sort field: null and a missing
  field first, then numbers, strings, documents, arrays, ObjectIds, booleans, dates.
  Within numbers, strings, ObjectIds, booleans and dates the order is the order of the
  values; documents and arrays are ranked by kind only. The sort is modelled stable,
  a descending sort as the ascending one read backwards.
\<close>

fun bson_key :: "val option \<Rightarrow> nat \<times> rat \<times> string" where
  "bson_key None = (1, 0, [])"
| "bson_key (Some VNone) = (1, 0, [])"
| "bson_key (Some (VInt i)) = (2, of_int i, [])"
| "bson_key (Some (VFloat q)) = (2, q, [])"
| "bson_key (Some (VStr s)) = (3, 0, s)"
| "bson_key (Some (VDict d)) = (4, 0, [])"
| "bson_key (Some (VList l)) = (5, 0, [])"
| "bson_key (Some (VOid s)) = (7, 0, s)"
| "bson_key (Some (VBool b)) = (8, of_bool b, [])"
| "bson_key (Some (VDate t)) = (9, of_int t, [])"

definition sort_val :: "string \<Rightarrow> doc \<Rightarrow> nat \<times> rat \<times> string" where
  "sort_val k d = bson_key (map_of d k)"

definition sort_docs :: "string \<Rightarrow> int \<Rightarrow> doc list \<Rightarrow> doc list" where
  "sort_docs k dir ds =
     (if dir = 1 then sort_key (sort_val k) ds else rev (sort_key (sort_val k) (rev ds)))"

text \<open>
  A cursor: \<^verbatim>\<open>find(query)\<close>, then \<^verbatim>\<open>.sort(key, direction)\<close> and
  \<^verbatim>\<open>.limit(n)\<close>; nothing is sent before the cursor is iterated. Iterating it is
  one round trip that returns the matching documents, sorted, cut to the limit.
\<close>

record cursor =
  cur_coll :: coll_name
  cur_query :: doc
  cur_sort :: "(string \<times> int) option"
  cur_limit :: "nat option"

definition find :: "coll_name \<Rightarrow> doc \<Rightarrow> cursor" where
  "find c q = \<lparr>cur_coll = c, cur_query = q, cur_sort = None, cur_limit = None\<rparr>"

definition sort_by :: "cursor \<Rightarrow> string \<Rightarrow> int \<Rightarrow> cursor" where
  "sort_by cur k dir = cur\<lparr>cur_sort := Some (k, dir)\<rparr>"

definition limit :: "cursor \<Rightarrow> nat \<Rightarrow> cursor" where
  "limit cur n = cur\<lparr>cur_limit := Some n\<rparr>"

definition cursor_docs :: "cursor \<Rightarrow> world \<Rightarrow> doc list" where
  "cursor_docs cur w =
     (let found = filter (matches (cur_query cur)) (coll (cur_coll cur) w);
          sorted_docs = (case cur_sort cur of None \<Rightarrow> found
                         | Some (k, dir) \<Rightarrow> sort_docs k dir found)
      in case cur_limit cur of None \<Rightarrow> sorted_docs | Some n \<Rightarrow> take n sorted_docs)"

definition fetch :: "cursor \<Rightarrow> doc list io" where
  "fetch cur = io_bind round_trip (\<lambda>_. (\<lambda>w. (Inr (cursor_docs cur w), w)))"

text \<open>\<^verbatim>\<open>find_one(query)\<close>: the first matching document, or None.\<close>

definition find_one :: "coll_name \<Rightarrow> doc \<Rightarrow> doc option io" where
  "find_one c q =
     io_bind round_trip (\<lambda>_. (\<lambda>w.
       (Inr (case filter (matches q) (coll c w) of [] \<Rightarrow> None | d # _ \<Rightarrow> Some d), w)))"

text \<open>\<^verbatim>\<open>count_documents(query)\<close>.\<close>

definition count_documents :: "coll_name \<Rightarrow> doc \<Rightarrow> nat io" where
  "count_documents c q =
     io_bind round_trip (\<lambda>_. (\<lambda>w. (Inr (length (filter (matches q) (coll c w))), w)))"

text \<open>
  \<^verbatim>\<open>insert_one(data)\<close>: a dict without \<^verbatim>\<open>_id\<close> gets a fresh ObjectId from the
  driver, stored first; a dict with \<^verbatim>\<open>_id\<close> keeps it, and the store refuses an id
  it already has. The result is the inserted id.
\<close>

definition insert_one :: "coll_name \<Rightarrow> doc \<Rightarrow> val io" where
  "insert_one c data =
     io_bind round_trip (\<lambda>_. (\<lambda>w.
       case map_of data ''_id'' of
         None \<Rightarrow>
           (let i = VOid (oid_of_nat (oids w))
            in (Inr i, coll_put c (coll c w @ [(''_id'', i) # data]) (w\<lparr>oids := Suc (oids w)\<rparr>)))
       | Some i \<Rightarrow>
           (if list_ex (\<lambda>d. map_of d ''_id'' = Some i) (coll c w) then (Inl DuplicateKeyError, w)
            else (Inr i, coll_put c (coll c w @ [data]) w))))"

text \<open>\<^verbatim>\<open>{"$set": data}\<close>: every field of \<open>data\<close> is assigned, in order.\<close>

definition set_fields :: "doc \<Rightarrow> doc \<Rightarrow> doc" where
  "set_fields data d = foldl (\<lambda>acc kv. AList.update (fst kv) (snd kv) acc) d data"

text \<open>
  The first document that satisfies \<open>P\<close> is replaced by \<open>f\<close> of it; the count says
  whether that changed it.
\<close>

fun update_first :: "(doc \<Rightarrow> bool) \<Rightarrow> (doc \<Rightarrow> doc) \<Rightarrow> doc list \<Rightarrow> doc list \<times> nat \<times> nat" where
  "update_first P f [] = ([], 0, 0)"
| "update_first P f (d # ds) =
     (if P d then (f d # ds, 1, if f d = d then 0 else 1)
      else (case update_first P f ds of (ds', m, n) \<Rightarrow> (d # ds', m, n)))"

text \<open>
  \<^verbatim>\<open>update_one(query, {"$set": data})\<close>: the result is
  \<^verbatim>\<open>(matched_count, modified_count)\<close>; the store counts a matched document as
  modified only when the update changed it. A \<^verbatim>\<open>$set\<close> that would change the
  \<^verbatim>\<open>_id\<close> of the matched document is a write error.
\<close>

definition update_one :: "coll_name \<Rightarrow> doc \<Rightarrow> doc \<Rightarrow> (nat \<times> nat) io" where
  "update_one c q data =
     io_bind round_trip (\<lambda>_. (\<lambda>w.
       case filter (matches q) (coll c w) of
         [] \<Rightarrow> (Inr (0, 0), w)
       | d # _ \<Rightarrow>
           (if map_of data ''_id'' \<noteq> None \<and> map_of data ''_id'' \<noteq> map_of d ''_id''
            then (Inl WriteError, w)
            else (case update_first (matches q) (set_fields data) (coll c w) of
                    (ds', m, n) \<Rightarrow> (Inr (m, n), coll_put c ds' w)))))"

text \<open>The first document that satisfies \<open>P\<close> is removed.\<close>

fun delete_first :: "(doc \<Rightarrow> bool) \<Rightarrow> doc list \<Rightarrow> doc list \<times> nat" where
  "delete_first P [] = ([], 0)"
| "delete_first P (d # ds) =
     (if P d then (ds, 1) else (case delete_first P ds of (ds', n) \<Rightarrow> (d # ds', n)))"

text \<open>\<^verbatim>\<open>delete_one(query)\<close>: the result is \<^verbatim>\<open>deleted_count\<close>.\<close>

definition delete_one :: "coll_name \<Rightarrow> doc \<Rightarrow> nat io" where
  "delete_one c q =
     io_bind round_trip (\<lambda>_. (\<lambda>w.
       case delete_first (matches q) (coll c w) of (ds', n) \<Rightarrow> (Inr n, coll_put c ds' w)))"

text \<open>
  The aggregation pipeline of \<^verbatim>\<open>get_analytics_stats\<close>, stage by stage:
  \<^verbatim>\<open>$match\<close>, \<^verbatim>\<open>$group\<close> by a field with a count (a missing field groups
  under null), \<^verbatim>\<open>$sort\<close>, \<^verbatim>\<open>$limit\<close>.
\<close>

datatype stage = Match doc | GroupCount string | Sort string int | Limit nat

definition group_count :: "string \<Rightarrow> doc list \<Rightarrow> doc list" where
  "group_count k ds =
     (let ks = map (\<lambda>d. doc_get d k VNone) ds
      in map (\<lambda>v. [(''_id'', v), (''count'', VInt (int (count_list ks v)))]) (remdups ks))"

fun run_stage :: "stage \<Rightarrow> doc list \<Rightarrow> doc list" where
  "run_stage (Match q) ds = filter (matches q) ds"
| "run_stage (GroupCount k) ds = group_count k ds"
| "run_stage (Sort k dir) ds = sort_docs k dir ds"
| "run_stage (Limit n) ds = take n ds"

definition aggregate :: "coll_name \<Rightarrow> stage list \<Rightarrow> doc list io" where
  "aggregate c pipeline =
     io_bind round_trip (\<lambda>_. (\<lambda>w. (Inr (foldl (\<lambda>ds s. run_stage s ds) (coll c w) pipeline), w)))"

section \<open>The Store Gateway (\<^verbatim>\<open>database.py\<close>, class DatabaseManager)\<close>

text \<open>
  A loop over a list whose body can raise stops at the first exception.
\<close>

fun map_exn :: "('a \<Rightarrow> exn + 'b) \<Rightarrow> 'a list \<Rightarrow> exn + 'b list" where
  "map_exn f [] = Inr []"
| "map_exn f (x # xs) =
     (case f x of
        Inl e \<Rightarrow> Inl e
      | Inr y \<Rightarrow> (case map_exn f xs of Inl e \<Rightarrow> Inl e | Inr ys \<Rightarrow> Inr (y # ys)))"

text \<open>\<^verbatim>\<open>d['_id'] = str(d['_id'])\<close>.\<close>

definition stringify_id :: "doc \<Rightarrow> exn + doc" where
  "stringify_id d =
     (case doc_getitem d ''_id'' of
        Inl e \<Rightarrow> Inl e
      | Inr i \<Rightarrow> (case str_val i of Inl e \<Rightarrow> Inl e | Inr s \<Rightarrow> Inr (doc_set d ''_id'' (VStr s))))"

text \<open>The truth value of an optional dict: None and the empty dict are false.\<close>

fun doc_truthy :: "doc option \<Rightarrow> bool" where
  "doc_truthy None = False"
| "doc_truthy (Some d) = (d \<noteq> [])"

definition get_profile :: "doc option io" where
  "get_profile =
     try_except
       (io_bind (find_one Coll_profile []) (\<lambda>found.
          case found of
            None \<Rightarrow> io_ret None
          | Some p \<Rightarrow>
              if p \<noteq> [] then io_bind (io_of (stringify_id p)) (\<lambda>p'. io_ret (Some p'))
              else io_ret (Some p)))
       (\<lambda>e. io_ret None)"

definition create_or_update_profile :: "doc \<Rightarrow> bool io" where
  "create_or_update_profile profile_data0 =
     try_except
       (io_bind utcnow (\<lambda>t1.
          let profile_data1 = doc_set profile_data0 ''updated_at'' (VDate t1) in
          io_bind (find_one Coll_profile []) (\<lambda>existing.
            case (if doc_truthy existing then existing else None) of
              Some ex \<Rightarrow>
                io_bind (io_of (doc_getitem ex ''_id'')) (\<lambda>i.
                io_bind (update_one Coll_profile [(''_id'', i)] profile_data1) (\<lambda>_.
                io_ret True))
            | None \<Rightarrow>
                io_bind utcnow (\<lambda>t2.
                let profile_data2 = doc_set profile_data1 ''created_at'' (VDate t2) in
                io_bind (insert_one Coll_profile profile_data2) (\<lambda>_.
                io_ret True)))))
       (\<lambda>e. io_ret False)"

definition get_projects :: "string option \<Rightarrow> doc list io" where
  "get_projects project_type =
     try_except
       (let query = (case project_type of
                       None \<Rightarrow> []
                     | Some t \<Rightarrow> if t \<noteq> [] then [(''type'', VStr t)] else [])
        in io_bind (fetch (sort_by (find Coll_projects query) ''display_order'' 1)) (\<lambda>ds.
           io_of (map_exn stringify_id ds)))
       (\<lambda>e. io_ret [])"


definition update_project :: "string \<Rightarrow> doc \<Rightarrow> bool io" where
  "update_project project_id project_data =
     try_except
       (io_bind utcnow (\<lambda>t.
        let d = doc_set project_data ''updated_at'' (VDate t) in
        io_bind (io_of (ObjectId project_id)) (\<lambda>i.
        io_bind (update_one Coll_projects [(''_id'', i)] d) (\<lambda>counts.
        io_ret (snd counts > 0)))))
       (\<lambda>e. io_ret False)"

definition delete_project :: "string \<Rightarrow> bool io" where
  "delete_project project_id =
     try_except
       (io_bind (io_of (ObjectId project_id)) (\<lambda>i.
        io_bind (delete_one Coll_projects [(''_id'', i)]) (\<lambda>deleted_count.
        io_ret (deleted_count > 0))))
       (\<lambda>e. io_ret False)"


definition get_contact_messages :: "doc list io" where
  "get_contact_messages =
     try_except
       (io_bind (fetch (sort_by (find Coll_contact_messages []) ''created_at'' (- 1))) (\<lambda>ds.
        io_of (map_exn stringify_id ds)))
       (\<lambda>e. io_ret [])"

definition mark_message_read :: "string \<Rightarrow> bool io" where
  "mark_message_read message_id =
     try_except
       (io_bind (io_of (ObjectId message_id)) (\<lambda>i.
        io_bind (update_one Coll_contact_messages [(''_id'', i)] [(''is_read'', VBool True)])
          (\<lambda>counts.
        io_ret (snd counts > 0))))
       (\<lambda>e. io_ret False)"


text \<open>The dict \<^verbatim>\<open>get_analytics_stats\<close> returns has five fixed keys.\<close>

record stats =
  total_visits :: nat
  total_downloads :: nat
  total_contacts :: nat
  recent_visits :: "doc list"
  top_pages :: "doc list"

definition zero_stats :: stats where
  "zero_stats =
     \<lparr>total_visits = 0, total_downloads = 0, total_contacts = 0,
      recent_visits = [], top_pages = []\<rparr>"

text \<open>The body of the loop over the recent visits.\<close>

definition recent_visit :: "doc \<Rightarrow> exn + doc" where
  "recent_visit visit =
     (case doc_getitem visit ''timestamp'' of
        Inl e \<Rightarrow> Inl e
      | Inr t \<Rightarrow>
          Inr [(''page'', doc_get visit ''page'' (VStr ''/'')),
               (''timestamp'', t),
               (''ip_address'', doc_get visit ''ip_address'' (VStr ''unknown''))])"

text \<open>The body of the loop over the groups of the aggregation.\<close>

definition top_page :: "doc \<Rightarrow> exn + doc" where
  "top_page page =
     (case doc_getitem page ''_id'' of
        Inl e \<Rightarrow> Inl e
      | Inr i \<Rightarrow>
          (case doc_getitem page ''count'' of
             Inl e \<Rightarrow> Inl e
           | Inr n \<Rightarrow> Inr [(''page'', py_or i (VStr ''/'')), (''visits'', n)]))"

definition visit_query :: doc where
  "visit_query = [(''event_type'', VStr ''visit'')]"

definition pipeline :: "stage list" where
  "pipeline = [Match visit_query, GroupCount ''page'', Sort ''count'' (- 1), Limit 5]"

definition get_analytics_stats :: "stats io" where
  "get_analytics_stats =
     try_except
       (io_bind (count_documents Coll_analytics visit_query) (\<lambda>visits_total.
        io_bind (count_documents Coll_analytics [(''event_type'', VStr ''download'')])
          (\<lambda>downloads_total.
        io_bind (count_documents Coll_contact_messages []) (\<lambda>contacts_total.
        io_bind (fetch (limit (sort_by (find Coll_analytics visit_query) ''timestamp'' (- 1)) 10))
          (\<lambda>visits.
        io_bind (io_of (map_exn recent_visit visits)) (\<lambda>recent.
        io_bind (aggregate Coll_analytics pipeline) (\<lambda>pages.
        io_bind (io_of (map_exn top_page pages)) (\<lambda>top.
        io_ret \<lparr>total_visits = visits_total, total_downloads = downloads_total,
                total_contacts = contacts_total, recent_visits = recent,
                top_pages = top\<rparr>))))))))
       (\<lambda>e. io_ret zero_stats)"

definition get_visualizations :: "doc list io" where
  "get_visualizations =
     try_except
       (io_bind (fetch (sort_by (find Coll_visualizations [(''is_active'', VBool True)])
                   ''display_order'' 1)) (\<lambda>ds.
        io_of (map_exn stringify_id ds)))
       (\<lambda>e. io_ret [])"


section \<open>The Seeder (\<^verbatim>\<open>seed_data.py\<close>)\<close>







section \<open>The request handlers (\<^verbatim>\<open>portfolio_routes.py\<close>) and their schemas\<close>

text \<open>
  A handler receives the objects FastAPI has validated against the schemas of
  \<^verbatim>\<open>models.py\<close>, and returns its response or raises an HTTPException, which the
  framework turns into the response with that status code and detail.
\<close>

record APIResponse =
  r_success :: bool
  r_message :: string
  r_data :: "doc option"

text \<open>
  \<^verbatim>\<open>Profile\<close>: every field has a value once the body is validated (a missing
  \<^verbatim>\<open>id\<close>, \<^verbatim>\<open>created_at\<close> or \<^verbatim>\<open>updated_at\<close> is filled by its
  default factory), and \<^verbatim>\<open>profile.dict()\<close> holds all eight.
\<close>

record Profile =
  p_id :: string
  p_personal :: val
  p_skills :: val
  p_experience :: val
  p_education :: val
  p_certifications :: val
  p_created_at :: int
  p_updated_at :: int

definition Profile_dict :: "Profile \<Rightarrow> doc" where
  "Profile_dict p =
     [(''id'', VStr (p_id p)), (''personal'', p_personal p), (''skills'', p_skills p),
      (''experience'', p_experience p), (''education'', p_education p),
      (''certifications'', p_certifications p),
      (''created_at'', VDate (p_created_at p)), (''updated_at'', VDate (p_updated_at p))]"

text \<open>
  \<^verbatim>\<open>ProjectUpdate\<close>: every field is optional; a field the request did not set is
  \<open>None\<close> here, and \<^verbatim>\<open>project.dict(exclude_unset=True)\<close> holds the others.
\<close>

record ProjectUpdate =
  u_title :: "val option"
  u_company :: "val option"
  u_type :: "val option"
  u_description :: "val option"
  u_impact :: "val option"
  u_technologies :: "val option"
  u_details :: "val option"
  u_featured :: "val option"
  u_display_order :: "val option"

definition ProjectUpdate_dict :: "ProjectUpdate \<Rightarrow> doc" where
  "ProjectUpdate_dict u =
     List.map_filter (\<lambda>kv. map_option (Pair (fst kv)) (snd kv))
       [(''title'', u_title u), (''company'', u_company u), (''type'', u_type u),
        (''description'', u_description u), (''impact'', u_impact u),
        (''technologies'', u_technologies u), (''details'', u_details u),
        (''featured'', u_featured u), (''display_order'', u_display_order u)]"






definition internal_server_error :: exn where
  "internal_server_error = HTTPException 500 ''Internal server error''"

text \<open>PUT /profile.\<close>

definition update_profile_handler :: "Profile \<Rightarrow> APIResponse io" where
  "update_profile_handler p =
     try_except
       (io_bind (create_or_update_profile (Profile_dict p)) (\<lambda>success.
          if success then
            io_ret \<lparr>r_success = True, r_message = ''Profile updated successfully'',
                    r_data = None\<rparr>
          else io_raise (HTTPException 500 ''Failed to update profile'')))
       (\<lambda>e. io_raise internal_server_error)"

text \<open>PUT /projects/{project_id}.\<close>

definition update_project_handler :: "string \<Rightarrow> ProjectUpdate \<Rightarrow> APIResponse io" where
  "update_project_handler project_id project =
     try_except
       (io_bind (update_project project_id (ProjectUpdate_dict project)) (\<lambda>success.
          if success then
            io_ret \<lparr>r_success = True, r_message = ''Project updated successfully'',
                    r_data = None\<rparr>
          else io_raise (HTTPException 404 ''Project not found'')))
       (\<lambda>e. io_raise internal_server_error)"

text \<open>DELETE /projects/{project_id}.\<close>

definition delete_project_handler :: "string \<Rightarrow> APIResponse io" where
  "delete_project_handler project_id =
     try_except
       (io_bind (delete_project project_id) (\<lambda>success.
          if success then
            io_ret \<lparr>r_success = True, r_message = ''Project deleted successfully'',
                    r_data = None\<rparr>
          else io_raise (HTTPException 404 ''Project not found'')))
       (\<lambda>e. io_raise internal_server_error)"



section \<open>Example inputs\<close>

text \<open>An empty store on which nothing faults.\<close>

definition w_empty :: world where
  "w_empty =
     \<lparr>profile = [], projects = [], contact_messages = [], analytics = [],
      visualizations = [], oids = 0, faults = [], clock = [], now = 0\<rparr>"

text \<open>Two stored projects, one of each observed type.\<close>

definition project_a :: doc where
  "project_a =
     [(''_id'', VOid ''00000000000000000000000a''), (''title'', VStr ''Churn''),
      (''type'', VStr ''Academic Project''), (''display_order'', VInt 2),
      (''updated_at'', VDate 100)]"

definition project_b :: doc where
  "project_b =
     [(''_id'', VOid ''00000000000000000000000b''), (''title'', VStr ''Claims360''),
      (''type'', VStr ''Professional Project''), (''display_order'', VInt 1),
      (''updated_at'', VDate 100)]"

definition w_projects :: world where
  "w_projects = w_empty\<lparr>projects := [project_a, project_b], clock := [200]\<rparr>"

text \<open>A partial update that sets the title only.\<close>

definition title_update :: ProjectUpdate where
  "title_update =
     \<lparr>u_title = Some (VStr ''Churn''), u_company = None, u_type = None, u_description = None,
      u_impact = None, u_technologies = None, u_details = None, u_featured = None,
      u_display_order = None\<rparr>"

text \<open>The store of two projects when the next round trip faults.\<close>

definition w_down :: world where
  "w_down = w_projects\<lparr>faults := [True]\<rparr>"

text \<open>A store with a profile created at time 100, a validated PUT /profile body, and an
  empty store whose clock reads 100 and then 250.\<close>

definition profile_doc :: doc where
  "profile_doc =
     [(''_id'', VOid ''00000000000000000000000c''), (''id'', VStr ''p1''),
      (''personal'', VDict [(''name'', VStr ''Keerthana'')]), (''skills'', VDict []),
      (''experience'', VList []), (''education'', VList []), (''certifications'', VList []),
      (''created_at'', VDate 100), (''updated_at'', VDate 100)]"

definition w_profile :: world where
  "w_profile = w_empty\<lparr>profile := [profile_doc], clock := [500]\<rparr>"

definition profile_put :: Profile where
  "profile_put =
     \<lparr>p_id = ''p1'', p_personal = VDict [(''name'', VStr ''Keerthana M'')], p_skills = VDict [],
      p_experience = VList [], p_education = VList [], p_certifications = VList [],
      p_created_at = 490, p_updated_at = 490\<rparr>"

definition w_two_readings :: world where
  "w_two_readings = w_empty\<lparr>clock := [100, 250]\<rparr>"



text \<open>
  Analytics events: three visits (one of a page, one with a null page, one without a
  page or with no address) and a download.
\<close>

definition visit_home :: doc where
  "visit_home =
     [(''_id'', VOid ''000000000000000000000011''), (''event_type'', VStr ''visit''),
      (''page'', VStr ''/projects''), (''ip_address'', VStr ''10.0.0.1''),
      (''timestamp'', VDate 10)]"

definition visit_null_page :: doc where
  "visit_null_page =
     [(''_id'', VOid ''000000000000000000000012''), (''event_type'', VStr ''visit''),
      (''page'', VNone), (''timestamp'', VDate 30)]"

definition visit_no_page :: doc where
  "visit_no_page =
     [(''_id'', VOid ''000000000000000000000013''), (''event_type'', VStr ''visit''),
      (''ip_address'', VStr ''10.0.0.2''), (''timestamp'', VDate 20)]"

definition download_event :: doc where
  "download_event =
     [(''_id'', VOid ''000000000000000000000014''), (''event_type'', VStr ''download''),
      (''page'', VStr ''resume''), (''timestamp'', VDate 40)]"

definition w_visits :: world where
  "w_visits =
     w_empty\<lparr>analytics := [visit_home, visit_null_page, download_event, visit_no_page]\<rparr>"

section \<open>Notions the properties are stated with\<close>

text \<open>
  A document the gateway has inserted carries the ObjectId the driver gave it;
  \<open>with_str_id\<close> is the document as the read operations return it, the id as a string.
\<close>

definition stored_doc :: "doc \<Rightarrow> bool" where
  "stored_doc d = (case map_of d ''_id'' of Some (VOid s) \<Rightarrow> True | _ \<Rightarrow> False)"

definition with_str_id :: "doc \<Rightarrow> doc" where
  "with_str_id d =
     (case map_of d ''_id'' of Some (VOid s) \<Rightarrow> doc_set d ''_id'' (VStr s) | _ \<Rightarrow> d)"

text \<open>The query \<^verbatim>\<open>get_projects\<close> builds from its argument.\<close>

definition project_query :: "string option \<Rightarrow> doc" where
  "project_query ft =
     (case ft of None \<Rightarrow> [] | Some t \<Rightarrow> if t \<noteq> [] then [(''type'', VStr t)] else [])"

text \<open>The world after one round trip: the schedule moves on.\<close>

definition skip_trip :: "world \<Rightarrow> world" where
  "skip_trip w = w\<lparr>faults := tl (faults w)\<rparr>"

text \<open>The visit events of the store.\<close>

definition visits :: "world \<Rightarrow> doc list" where
  "visits w = filter (matches visit_query) (analytics w)"

text \<open>The stored project a path parameter names, if it is an ObjectId and one has it.\<close>

definition find_project :: "string \<Rightarrow> world \<Rightarrow> doc option" where
  "find_project pid w =
     (case ObjectId pid of
        Inl e \<Rightarrow> None
      | Inr i \<Rightarrow> List.find (matches [(''_id'', i)]) (projects w))"



definition grows :: "world \<Rightarrow> world \<Rightarrow> bool" where
  "grows w w' =
     (profile w' = profile w \<and> prefix (projects w) (projects w') \<and>
      prefix (visualizations w) (visualizations w') \<and>
      contact_messages w' = contact_messages w \<and> analytics w' = analytics w \<and>
      set (faults w') \<subseteq> set (faults w))"

text \<open>
  What \<^verbatim>\<open>get_analytics_stats\<close> is stated with: the page a visit is grouped under
  (null when it has none), how many visits a page value has, the entry of a page value in
  \<open>top_pages\<close>, a visit as \<open>recent_visits\<close> holds it, the documents the two cursors
  return, and the groups of the aggregation with their page values.
\<close>

definition page_of :: "doc \<Rightarrow> val" where
  "page_of d = doc_get d ''page'' VNone"

definition page_count :: "world \<Rightarrow> val \<Rightarrow> nat" where
  "page_count w v = count_list (map page_of (visits w)) v"

definition page_entry :: "world \<Rightarrow> val \<Rightarrow> doc" where
  "page_entry w v = [(''page'', py_or v (VStr ''/'')), (''visits'', VInt (int (page_count w v)))]"


definition recent_docs :: "world \<Rightarrow> doc list" where
  "recent_docs w = take 10 (sort_docs ''timestamp'' (- 1) (visits w))"

definition top_groups :: "world \<Rightarrow> doc list" where
  "top_groups w = take 5 (sort_docs ''count'' (- 1) (group_count ''page'' (visits w)))"

definition group_of :: "world \<Rightarrow> val \<Rightarrow> doc" where
  "group_of w v = [(''_id'', v), (''count'', VInt (int (page_count w v)))]"

definition top_values :: "world \<Rightarrow> val list" where
  "top_values w = map (\<lambda>g. doc_get g ''_id'' VNone) (top_groups w)"

section \<open>Properties\<close>

subsection \<open>The monad and the store\<close>

lemmas io_defs = io_bind_def io_ret_def io_raise_def io_of_def try_except_def

lemma map_of_doc_set: "map_of (doc_set d k v) k' = (if k' = k then Some v else map_of d k')"
  by (simp add: doc_set_def update_conv')

lemma map_exn_Inr: "map_exn f xs = Inr ys \<Longrightarrow> list_all2 (\<lambda>x y. f x = Inr y) xs ys"
  by (induction xs arbitrary: ys) (auto split: sum.splits)

lemma map_exn_total: "list_all (\<lambda>x. f x = Inr (g x)) xs \<Longrightarrow> map_exn f xs = Inr (map g xs)"
  by (induction xs) auto

lemma list_all2_map_eq:
  "list_all2 R xs ys \<Longrightarrow> (\<And>x y. R x y \<Longrightarrow> f x = g y) \<Longrightarrow> map f xs = map g ys"
  by (induction rule: list_all2_induct) auto

lemma list_all2_right: "list_all2 R xs ys \<Longrightarrow> y \<in> set ys \<Longrightarrow> \<exists>x\<in>set xs. R x y"
  by (induction rule: list_all2_induct) auto

lemma stringify_id_other:
  "stringify_id d = Inr d' \<Longrightarrow> k \<noteq> ''_id'' \<Longrightarrow> map_of d' k = map_of d k"
  by (auto simp: stringify_id_def map_of_doc_set split: sum.splits)

lemma stringify_id_stored: "stored_doc d \<Longrightarrow> stringify_id d = Inr (with_str_id d)"
  by (auto simp: stored_doc_def with_str_id_def stringify_id_def doc_getitem_def
      split: option.splits val.splits)

lemma sort_val_stringify:
  "stringify_id d = Inr d' \<Longrightarrow> k \<noteq> ''_id'' \<Longrightarrow> sort_val k d' = sort_val k d"
  by (simp add: sort_val_def stringify_id_other)

lemma try_default_fst:
  "fst (try_except m (\<lambda>e. io_ret d) w) = Inr (case fst (m w) of Inl e \<Rightarrow> d | Inr x \<Rightarrow> x)"
  by (cases "m w") (auto simp: io_defs split: sum.splits)

lemma coll_faults [simp]: "coll c (w\<lparr>faults := fs\<rparr>) = coll c w"
  by (cases c) simp_all

lemma cursor_docs_faults [simp]: "cursor_docs cur (w\<lparr>faults := fs\<rparr>) = cursor_docs cur w"
  by (simp add: cursor_docs_def)

lemma fetch_apply:
  "fetch cur w =
     (if next_fault w then Inl StoreFault else Inr (cursor_docs cur w),
      w\<lparr>faults := tl (faults w)\<rparr>)"
  by (simp add: fetch_def round_trip_def io_defs)

lemma bson_key_int_le: "bson_key (Some (VInt a)) \<le> bson_key (Some (VInt b)) \<longleftrightarrow> a \<le> b"
  by (auto simp: less_eq_prod_def)

lemma round_trip_apply: "round_trip w = (if next_fault w then Inl StoreFault else Inr (), skip_trip w)"
  by (simp add: round_trip_def skip_trip_def)

lemma coll_skip [simp]: "coll c (skip_trip w) = coll c w"
  by (simp add: skip_trip_def)

lemma find_one_apply:
  "find_one c q w =
     (if next_fault w then Inl StoreFault
      else Inr (case filter (matches q) (coll c w) of [] \<Rightarrow> None | d # _ \<Rightarrow> Some d), skip_trip w)"
  by (simp add: find_one_def round_trip_apply io_defs)

lemma count_documents_apply:
  "count_documents c q w =
     (if next_fault w then Inl StoreFault else Inr (length (filter (matches q) (coll c w))), skip_trip w)"
  by (simp add: count_documents_def round_trip_apply io_defs)

lemma aggregate_apply:
  "aggregate c p w =
     (if next_fault w then Inl StoreFault else Inr (foldl (\<lambda>ds s. run_stage s ds) (coll c w) p), skip_trip w)"
  by (simp add: aggregate_def round_trip_apply io_defs)

lemma fetch_apply': "fetch cur w = (if next_fault w then Inl StoreFault else Inr (cursor_docs cur w), skip_trip w)"
  by (simp add: fetch_apply skip_trip_def)

lemma cursor_docs_skip [simp]: "cursor_docs cur (skip_trip w) = cursor_docs cur w"
  by (simp add: skip_trip_def)

lemma utcnow_apply: "utcnow w = (Inr (fst (read_clock w)), snd (read_clock w))"
  by (simp add: utcnow_def)

lemma read_clock_coll [simp]: "coll c (snd (read_clock w)) = coll c w"
  by (cases c) (simp_all add: read_clock_def split: list.splits)

lemma read_clock_frame [simp]:
  "faults (snd (read_clock w)) = faults w"
  "oids (snd (read_clock w)) = oids w"
  "next_fault (snd (read_clock w)) = next_fault w"
  by (auto simp: read_clock_def next_fault_def split: list.splits)

lemma update_first_count:
  "snd (snd (update_first P f ds)) =
     (case filter P ds of [] \<Rightarrow> 0 | d # _ \<Rightarrow> if f d = d then 0 else 1)"
  by (induction ds) (auto split: prod.splits)

lemma update_first_unchanged:
  "fst (update_first P f ds) = ds \<longleftrightarrow> snd (snd (update_first P f ds)) = 0"
  by (induction ds) (auto split: prod.splits)

lemma update_one_apply:
  "update_one c q data w =
     (if next_fault w then (Inl StoreFault, skip_trip w)
      else case filter (matches q) (coll c w) of
             [] \<Rightarrow> (Inr (0, 0), skip_trip w)
           | d # _ \<Rightarrow>
               if map_of data ''_id'' \<noteq> None \<and> map_of data ''_id'' \<noteq> map_of d ''_id''
               then (Inl WriteError, skip_trip w)
               else (Inr (fst (snd (update_first (matches q) (set_fields data) (coll c w))),
                          snd (snd (update_first (matches q) (set_fields data) (coll c w)))),
                     coll_put c (fst (update_first (matches q) (set_fields data) (coll c w)))
                       (skip_trip w)))"
  by (simp add: update_one_def round_trip_apply io_defs split: list.splits prod.splits)

lemma delete_first_count:
  "snd (delete_first P ds) = (if filter P ds = [] then 0 else 1)"
  by (induction ds) (auto split: prod.splits)

lemma delete_one_apply:
  "delete_one c q w =
     (if next_fault w then (Inl StoreFault, skip_trip w)
      else (Inr (snd (delete_first (matches q) (coll c w))),
            coll_put c (fst (delete_first (matches q) (coll c w))) (skip_trip w)))"
  by (simp add: delete_one_def round_trip_apply io_defs split: prod.splits)

lemma update_project_fst:
  "fst (update_project pid data w) =
     Inr (case ObjectId pid of
            Inl e \<Rightarrow> False
          | Inr i \<Rightarrow>
              \<not> next_fault w \<and>
              (case filter (matches [(''_id'', i)]) (projects w) of
                 [] \<Rightarrow> False
               | d # _ \<Rightarrow>
                   \<not> (map_of (doc_set data ''updated_at'' (VDate (fst (read_clock w)))) ''_id'' \<noteq> None \<and>
                      map_of (doc_set data ''updated_at'' (VDate (fst (read_clock w)))) ''_id'' \<noteq> map_of d ''_id'') \<and>
                   set_fields (doc_set data ''updated_at'' (VDate (fst (read_clock w)))) d \<noteq> d))"
  unfolding update_project_def try_default_fst
  by (simp add: io_bind_def io_of_def io_ret_def utcnow_apply update_one_apply update_first_count
      Let_def split: sum.splits list.splits)

lemma delete_project_fst:
  "fst (delete_project pid w) =
     Inr (case ObjectId pid of
            Inl e \<Rightarrow> False
          | Inr i \<Rightarrow> \<not> next_fault w \<and> filter (matches [(''_id'', i)]) (projects w) \<noteq> [])"
  unfolding delete_project_def try_default_fst
  by (simp add: io_bind_def io_of_def io_ret_def delete_one_apply delete_first_count
      split: sum.splits)

lemma ObjectId_zeros:
  "ObjectId ''000000000000000000000000'' = Inr (VOid ''000000000000000000000000'')"
  by (simp add: ObjectId_def is_hex_def hex_lower_def)

subsection \<open>Listing projects\<close>

lemma get_projects_fst:
  "fst (get_projects ft w) =
     Inr (if next_fault w then []
          else (case map_exn stringify_id
                  (sort_key (sort_val ''display_order'')
                     (filter (matches (project_query ft)) (projects w))) of
                  Inl e \<Rightarrow> [] | Inr ds \<Rightarrow> ds))"
  unfolding get_projects_def try_default_fst
  by (simp add: Let_def io_bind_def io_of_def fetch_apply cursor_docs_def find_def sort_by_def
      sort_docs_def project_query_def split: sum.splits)

lemma get_projects_cases:
  assumes "fst (get_projects ft w) = Inr ds"
  obtains "ds = []"
  | "list_all2 (\<lambda>x y. stringify_id x = Inr y)
       (sort_key (sort_val ''display_order'') (filter (matches (project_query ft)) (projects w)))
       ds"
  using assms unfolding get_projects_fst
  by (auto split: if_splits sum.splits dest: map_exn_Inr)

lemma get_projects_sorted:
  assumes "fst (get_projects ft w) = Inr ds"
  shows "sorted (map (sort_val ''display_order'') ds)"
  using assms
proof (cases rule: get_projects_cases)
  case 1
  then show ?thesis by simp
next
  case 2
  have "map (sort_val ''display_order'')
          (sort_key (sort_val ''display_order'')
             (filter (matches (project_query ft)) (projects w)))
        = map (sort_val ''display_order'') ds"
    by (rule list_all2_map_eq [OF 2]) (simp add: sort_val_stringify)
  then show ?thesis
    using sorted_sort_key [of "sort_val ''display_order''"
        "filter (matches (project_query ft)) (projects w)"]
    by simp
qed

lemma get_projects_from_store:
  assumes "fst (get_projects ft w) = Inr ds" and "d \<in> set ds"
  shows "\<exists>x\<in>set (projects w). matches (project_query ft) x \<and> stringify_id x = Inr d"
  using assms(1)
proof (cases rule: get_projects_cases)
  case 1
  with assms(2) show ?thesis by simp
next
  case 2
  from list_all2_right [OF 2 assms(2)] show ?thesis by auto
qed

lemma get_projects_type:
  assumes "fst (get_projects (Some t) w) = Inr ds" and "t \<noteq> []" and "d \<in> set ds"
  shows "map_of d ''type'' = Some (VStr t)"
proof -
  from get_projects_from_store [OF assms(1) assms(3)]
  obtain x where x: "matches (project_query (Some t)) x" and s: "stringify_id x = Inr d"
    by auto
  from x assms(2) have "map_of x ''type'' = Some (VStr t)"
    by (simp add: project_query_def matches_def)
  with s show ?thesis by (simp add: stringify_id_other)
qed

lemma get_projects_all:
  assumes "\<not> next_fault w" and "list_all stored_doc (projects w)"
  shows "fst (get_projects ft w) =
           Inr (map with_str_id
                  (sort_key (sort_val ''display_order'')
                     (filter (matches (project_query ft)) (projects w))))"
proof -
  have "list_all (\<lambda>x. stringify_id x = Inr (with_str_id x))
          (sort_key (sort_val ''display_order'')
             (filter (matches (project_query ft)) (projects w)))"
    using assms(2) by (auto simp: list_all_iff stringify_id_stored)
  from map_exn_total [OF this] assms(1) show ?thesis
    by (simp add: get_projects_fst)
qed

text \<open>
  C10. An empty-string type filter is treated as no filter: \<^verbatim>\<open>get_projects("")\<close>
  is \<^verbatim>\<open>get_projects(None)\<close>, and when the round trip succeeds on a store of
  stored documents every project is returned (each once, its id as a string), whatever
  its type.
\<close>

theorem get_projects_empty_string_filter:
  "get_projects (Some []) = get_projects None \<and>
   (\<not> next_fault w \<and> list_all stored_doc (projects w) \<longrightarrow>
      (\<exists>ds. fst (get_projects (Some []) w) = Inr ds \<and>
            mset ds = mset (map with_str_id (projects w))))"
proof (intro conjI impI)
  show "get_projects (Some []) = get_projects None"
    by (simp add: get_projects_def)
next
  assume a: "\<not> next_fault w \<and> list_all stored_doc (projects w)"
  then have "fst (get_projects (Some []) w) =
               Inr (map with_str_id
                      (sort_key (sort_val ''display_order'')
                         (filter (matches (project_query (Some []))) (projects w))))"
    by (simp add: get_projects_all)
  moreover have "filter (matches (project_query (Some []))) (projects w) = projects w"
    by (simp add: project_query_def matches_def)
  ultimately show "\<exists>ds. fst (get_projects (Some []) w) = Inr ds \<and>
                        mset ds = mset (map with_str_id (projects w))"
    by simp
qed

theorem get_projects_empty_string_filter_witness:
  "\<not> next_fault w_projects \<and> list_all stored_doc (projects w_projects) \<and>
   get_projects (Some []) = get_projects None \<and>
   (\<exists>ds. fst (get_projects (Some []) w_projects) = Inr ds \<and>
         mset ds = mset (map with_str_id (projects w_projects)))"
proof -
  have h: "\<not> next_fault w_projects \<and> list_all stored_doc (projects w_projects)"
    by (simp add: w_projects_def w_empty_def next_fault_def stored_doc_def project_a_def
        project_b_def)
  with get_projects_empty_string_filter [of w_projects] show ?thesis
    by blast
qed

text \<open>
  C8, as the code has it. The claim fails for the empty-string filter, which the guard
  \<^verbatim>\<open>if project_type:\<close> treats as absent: then projects of every type are returned.
\<close>

theorem get_projects_empty_filter_counterexample:
  "fst (get_projects (Some []) w_projects) =
     Inr [[(''_id'', VStr ''00000000000000000000000b''), (''title'', VStr ''Claims360''),
           (''type'', VStr ''Professional Project''), (''display_order'', VInt 1),
           (''updated_at'', VDate 100)],
          [(''_id'', VStr ''00000000000000000000000a''), (''title'', VStr ''Churn''),
           (''type'', VStr ''Academic Project''), (''display_order'', VInt 2),
           (''updated_at'', VDate 100)]] \<and>
   VStr ''Professional Project'' \<noteq> VStr []"
  by (simp add: get_projects_fst w_projects_def w_empty_def next_fault_def project_query_def
      matches_def project_a_def project_b_def sort_val_def stringify_id_def doc_getitem_def
      doc_set_def less_eq_prod_def)

text \<open>
  C8, amended. \<^verbatim>\<open>get_projects\<close> never raises. For every non-empty type filter it
  returns only projects whose type equals the filter; for every filter, also none, the
  result is sorted non-decreasing by \<^verbatim>\<open>display_order\<close> (in the store's order
  of values, which on integers is the order of the integers); and when no project has
  the type of a non-empty filter the result is the empty list.
\<close>

theorem get_projects_filter_sorted:
  "\<exists>ds. fst (get_projects ft w) = Inr ds \<and>
        sorted (map (sort_val ''display_order'') ds) \<and>
        (\<forall>i j a b. i < j \<and> j < length ds \<and>
            map_of (ds ! i) ''display_order'' = Some (VInt a) \<and>
            map_of (ds ! j) ''display_order'' = Some (VInt b) \<longrightarrow> a \<le> b) \<and>
        (\<forall>t. ft = Some t \<and> t \<noteq> [] \<longrightarrow> (\<forall>d\<in>set ds. map_of d ''type'' = Some (VStr t))) \<and>
        (\<forall>t. ft = Some t \<and> t \<noteq> [] \<and>
            \<not> list_ex (\<lambda>d. map_of d ''type'' = Some (VStr t)) (projects w) \<longrightarrow> ds = [])"
proof -
  obtain ds where ds: "fst (get_projects ft w) = Inr ds"
    by (simp add: get_projects_fst)
  have s: "sorted (map (sort_val ''display_order'') ds)"
    by (rule get_projects_sorted [OF ds])
  have ints: "a \<le> b"
    if "i < j" "j < length ds" "map_of (ds ! i) ''display_order'' = Some (VInt a)"
       "map_of (ds ! j) ''display_order'' = Some (VInt b)" for i j a b
  proof -
    from s that(1,2) have "sort_val ''display_order'' (ds ! i) \<le> sort_val ''display_order'' (ds ! j)"
      by (simp add: sorted_iff_nth_mono)
    with that(3,4) show ?thesis
      by (simp add: sort_val_def bson_key_int_le del: bson_key.simps)
  qed
  have ty: "map_of d ''type'' = Some (VStr t)" if "ft = Some t" "t \<noteq> []" "d \<in> set ds" for t d
    using get_projects_type [of t w ds d] ds that by simp
  have none: "ds = []"
    if "ft = Some t" "t \<noteq> []" "\<not> list_ex (\<lambda>d. map_of d ''type'' = Some (VStr t)) (projects w)"
    for t
  proof (rule ccontr)
    assume "ds \<noteq> []"
    then obtain d where d: "d \<in> set ds" by (cases ds) auto
    from get_projects_from_store [OF ds d] that(1,2)
    obtain x where "x \<in> set (projects w)" "map_of x ''type'' = Some (VStr t)"
      by (auto simp: project_query_def matches_def)
    with that(3) show False by (auto simp: list_ex_iff)
  qed
  from ds s ints ty none show ?thesis
    by blast
qed

theorem get_projects_filter_sorted_witness:
  "fst (get_projects (Some ''Academic Project'') w_projects) =
     Inr [[(''_id'', VStr ''00000000000000000000000a''), (''title'', VStr ''Churn''),
           (''type'', VStr ''Academic Project''), (''display_order'', VInt 2),
           (''updated_at'', VDate 100)]] \<and>
   fst (get_projects (Some ''Seminar'') w_projects) = Inr []"
proof -
  have e: "\<not> list_ex (\<lambda>d. map_of d ''type'' = Some (VStr ''Seminar'')) (projects w_projects)"
    by (simp add: w_projects_def w_empty_def project_a_def project_b_def)
  have "fst (get_projects (Some ''Seminar'') w_projects) = Inr []"
    using get_projects_filter_sorted [of "Some ''Seminar''" w_projects] e by auto
  moreover have "fst (get_projects (Some ''Academic Project'') w_projects) =
     Inr [[(''_id'', VStr ''00000000000000000000000a''), (''title'', VStr ''Churn''),
           (''type'', VStr ''Academic Project''), (''display_order'', VInt 2),
           (''updated_at'', VDate 100)]]"
    by (simp add: get_projects_fst w_projects_def w_empty_def next_fault_def project_query_def
        matches_def project_a_def project_b_def sort_val_def stringify_id_def doc_getitem_def
        doc_set_def)
  ultimately show ?thesis by simp
qed

subsection \<open>Updating and deleting a project over HTTP\<close>

text \<open>
  A handler of the shape \<^verbatim>\<open>try: if ok: return r else: raise e  except Exception: raise e'\<close>
  answers \<open>r\<close> or raises \<open>e'\<close>, never \<open>e\<close>.
\<close>

lemma handler_500:
  "fst (try_except (io_bind m (\<lambda>ok. if ok then io_ret r else io_raise e)) (\<lambda>e. io_raise e') w)
     = (if fst (m w) = Inr True then Inr r else Inl e')"
  by (cases "m w") (auto simp: io_defs split: sum.splits)

lemma project_handlers_never_404:
  "fst (update_project_handler pid u w) \<noteq> Inl (HTTPException 404 ''Project not found'') \<and>
   fst (delete_project_handler pid w) \<noteq> Inl (HTTPException 404 ''Project not found'')"
  by (simp add: update_project_handler_def delete_project_handler_def handler_500 internal_server_error_def)

lemma project_handlers_500:
  "(fst (update_project pid (ProjectUpdate_dict u) w) = Inr False \<longrightarrow>
      fst (update_project_handler pid u w) = Inl (HTTPException 500 ''Internal server error'')) \<and>
   (fst (delete_project pid w) = Inr False \<longrightarrow>
      fst (delete_project_handler pid w) = Inl (HTTPException 500 ''Internal server error''))"
  by (simp add: update_project_handler_def delete_project_handler_def handler_500 internal_server_error_def)

text \<open>
  C1. The handlers of PUT and DELETE /projects/{id} raise
  \<^verbatim>\<open>HTTPException(404, "Project not found")\<close> inside their own
  \<^verbatim>\<open>try\<close> block, whose \<^verbatim>\<open>except Exception\<close> catches it and raises
  the 500 response instead. At an unknown id on a store of two projects the gateway
  returns false and both handlers answer 500 "Internal server error", not 404.
\<close>

theorem project_handlers_unknown_id:
  "fst (update_project ''000000000000000000000000'' (ProjectUpdate_dict title_update) w_projects) = Inr False \<and>
   fst (update_project_handler ''000000000000000000000000'' title_update w_projects) =
     Inl (HTTPException 500 ''Internal server error'') \<and>
   fst (delete_project ''000000000000000000000000'' w_projects) = Inr False \<and>
   fst (delete_project_handler ''000000000000000000000000'' w_projects) =
     Inl (HTTPException 500 ''Internal server error'')"
proof -
  have u: "fst (update_project ''000000000000000000000000'' (ProjectUpdate_dict title_update) w_projects) = Inr False"
    by (simp add: update_project_fst ObjectId_zeros w_projects_def w_empty_def matches_def
        project_a_def project_b_def)
  have d: "fst (delete_project ''000000000000000000000000'' w_projects) = Inr False"
    by (simp add: delete_project_fst ObjectId_zeros w_projects_def w_empty_def matches_def
        project_a_def project_b_def)
  from u d show ?thesis
    by (simp add: update_project_handler_def delete_project_handler_def handler_500
        internal_server_error_def)
qed

subsection \<open>Reads on a faulting store\<close>

lemma get_profile_fault: "next_fault w \<Longrightarrow> fst (get_profile w) = Inr None"
  by (simp add: get_profile_def try_default_fst io_bind_def find_one_apply)

lemma get_contact_messages_fault: "next_fault w \<Longrightarrow> fst (get_contact_messages w) = Inr []"
  by (simp add: get_contact_messages_def try_default_fst io_bind_def fetch_apply')

lemma get_visualizations_fault: "next_fault w \<Longrightarrow> fst (get_visualizations w) = Inr []"
  by (simp add: get_visualizations_def try_default_fst io_bind_def fetch_apply')

lemma get_analytics_stats_fst:
  "fst (get_analytics_stats w) =
     Inr (if next_fault w \<or> next_fault (skip_trip w) \<or> next_fault (skip_trip (skip_trip w)) \<or>
             next_fault (skip_trip (skip_trip (skip_trip w))) \<or>
             next_fault (skip_trip (skip_trip (skip_trip (skip_trip w))))
          then zero_stats
          else (case map_exn recent_visit (take 10 (sort_docs ''timestamp'' (- 1) (visits w))) of
                  Inl e \<Rightarrow> zero_stats
                | Inr recent \<Rightarrow>
                    (case map_exn top_page
                            (take 5 (sort_docs ''count'' (- 1) (group_count ''page'' (visits w)))) of
                       Inl e \<Rightarrow> zero_stats
                     | Inr tp \<Rightarrow>
                         \<lparr>total_visits = length (visits w),
                          total_downloads =
                            length (filter (matches [(''event_type'', VStr ''download'')]) (analytics w)),
                          total_contacts = length (contact_messages w),
                          recent_visits = recent, top_pages = tp\<rparr>)))"
  unfolding get_analytics_stats_def try_default_fst
  by (simp add: io_bind_def io_of_def io_ret_def count_documents_apply fetch_apply' aggregate_apply
      cursor_docs_def find_def sort_by_def limit_def pipeline_def visits_def matches_def
      split: sum.splits)

lemma faults_take_Suc:
  "True \<in> set (take (Suc n) (faults w)) \<longleftrightarrow> next_fault w \<or> True \<in> set (take n (faults (skip_trip w)))"
  by (cases "faults w") (auto simp: next_fault_def skip_trip_def)

lemma get_analytics_stats_fault:
  assumes "True \<in> set (take 5 (faults w))"
  shows "fst (get_analytics_stats w) = Inr zero_stats"
proof -
  have "take 5 (faults w) = take (Suc (Suc (Suc (Suc (Suc 0))))) (faults w)"
    by (simp add: eval_nat_numeral)
  with assms have "next_fault w \<or> next_fault (skip_trip w) \<or> next_fault (skip_trip (skip_trip w)) \<or>
             next_fault (skip_trip (skip_trip (skip_trip w))) \<or>
             next_fault (skip_trip (skip_trip (skip_trip (skip_trip w))))"
    by (simp only: faults_take_Suc) simp
  then show ?thesis
    by (simp only: get_analytics_stats_fst if_True)
qed

text \<open>
  C6. No read operation of the gateway raises, whatever the store does. When its round
  trip faults \<^verbatim>\<open>get_profile\<close> returns None and the list operations return the
  empty list; when any of the five round trips of \<^verbatim>\<open>get_analytics_stats\<close>
  faults it returns the aggregate of zeros and empty lists.
\<close>

theorem reads_degrade_on_fault:
  "(\<exists>p. fst (get_profile w) = Inr p) \<and>
   (\<exists>ds. fst (get_projects ft w) = Inr ds) \<and>
   (\<exists>ds. fst (get_contact_messages w) = Inr ds) \<and>
   (\<exists>ds. fst (get_visualizations w) = Inr ds) \<and>
   (\<exists>s. fst (get_analytics_stats w) = Inr s) \<and>
   (next_fault w \<longrightarrow>
      fst (get_profile w) = Inr None \<and> fst (get_projects ft w) = Inr [] \<and>
      fst (get_contact_messages w) = Inr [] \<and> fst (get_visualizations w) = Inr []) \<and>
   (True \<in> set (take 5 (faults w)) \<longrightarrow> fst (get_analytics_stats w) = Inr zero_stats)"
proof (intro conjI impI)
  show "\<exists>p. fst (get_profile w) = Inr p"
    by (simp add: get_profile_def try_default_fst)
  show "\<exists>ds. fst (get_projects ft w) = Inr ds"
    by (simp add: get_projects_fst)
  show "\<exists>ds. fst (get_contact_messages w) = Inr ds"
    by (simp add: get_contact_messages_def try_default_fst)
  show "\<exists>ds. fst (get_visualizations w) = Inr ds"
    by (simp add: get_visualizations_def try_default_fst)
  show "\<exists>s. fst (get_analytics_stats w) = Inr s"
    by (simp add: get_analytics_stats_def try_default_fst)
  show "fst (get_profile w) = Inr None" if "next_fault w"
    using that by (rule get_profile_fault)
  show "fst (get_projects ft w) = Inr []" if "next_fault w"
    using that by (simp add: get_projects_fst)
  show "fst (get_contact_messages w) = Inr []" if "next_fault w"
    using that by (rule get_contact_messages_fault)
  show "fst (get_visualizations w) = Inr []" if "next_fault w"
    using that by (rule get_visualizations_fault)
  show "fst (get_analytics_stats w) = Inr zero_stats" if "True \<in> set (take 5 (faults w))"
    using that by (rule get_analytics_stats_fault)
qed

theorem reads_degrade_on_fault_witness:
  "next_fault w_down \<and> True \<in> set (take 5 (faults w_down)) \<and>
   fst (get_profile w_down) = Inr None \<and>
   fst (get_projects (Some ''Academic Project'') w_down) = Inr [] \<and>
   fst (get_contact_messages w_down) = Inr [] \<and>
   fst (get_visualizations w_down) = Inr [] \<and>
   fst (get_analytics_stats w_down) = Inr zero_stats"
proof -
  have h: "next_fault w_down" "True \<in> set (take 5 (faults w_down))"
    by (simp_all add: w_down_def next_fault_def)
  with reads_degrade_on_fault [of w_down "Some ''Academic Project''"] show ?thesis
    by blast
qed

subsection \<open>What \<^verbatim>\<open>update_project\<close> returns\<close>

lemma read_clock_fields [simp]:
  "profile (snd (read_clock w)) = profile w"
  "projects (snd (read_clock w)) = projects w"
  "contact_messages (snd (read_clock w)) = contact_messages w"
  "analytics (snd (read_clock w)) = analytics w"
  "visualizations (snd (read_clock w)) = visualizations w"
  by (auto simp: read_clock_def split: list.splits)

lemma skip_trip_fields [simp]:
  "profile (skip_trip w) = profile w"
  "projects (skip_trip w) = projects w"
  "contact_messages (skip_trip w) = contact_messages w"
  "analytics (skip_trip w) = analytics w"
  "visualizations (skip_trip w) = visualizations w"
  "oids (skip_trip w) = oids w"
  "clock (skip_trip w) = clock w"
  "now (skip_trip w) = now w"
  "faults (skip_trip w) = tl (faults w)"
  by (simp_all add: skip_trip_def)

lemma try_default_snd: "snd (try_except m (\<lambda>e. io_ret d) w) = snd (m w)"
  by (cases "m w") (auto simp: io_defs split: sum.splits)

lemma case_filter_find:
  "(case filter P xs of [] \<Rightarrow> a | d # _ \<Rightarrow> f d) = (case List.find P xs of None \<Rightarrow> a | Some d \<Rightarrow> f d)"
  by (induction xs) auto

lemma map_of_set_fields: "map_of (set_fields data d) = map_of d ++ map_of (rev data)"
  unfolding set_fields_def
  by (induction data arbitrary: d) (auto simp: update_conv' map_add_def fun_eq_iff split: option.splits)

lemma set_fields_same: "matches data d \<Longrightarrow> set_fields data d = d"
  unfolding set_fields_def matches_def
  by (induction data arbitrary: d) (auto simp: update_triv)

lemma matches_doc_set:
  assumes "matches data d" and "map_of d k = Some v"
  shows "matches (doc_set data k v) d"
proof -
  have "set (AList.update k v data) \<subseteq> insert (k, v) (set data)"
    by (induction data) auto
  with assms show ?thesis
    by (auto simp: matches_def doc_set_def list_all_iff)
qed

lemma distinct_rev_map_of: "distinct (map fst xs) \<Longrightarrow> map_of (rev xs) = map_of xs"
  by (subst map_of_inject_set) (simp_all add: rev_map [symmetric])

lemma set_fields_stamp_changes:
  assumes "distinct (map fst data)" and "map_of d k \<noteq> Some v"
  shows "set_fields (doc_set data k v) d \<noteq> d"
proof
  assume e: "set_fields (doc_set data k v) d = d"
  have "distinct (map fst (doc_set data k v))"
    using assms(1) by (simp add: doc_set_def distinct_update)
  then have "map_of (rev (doc_set data k v)) k = Some v"
    by (simp add: distinct_rev_map_of map_of_doc_set)
  then have "map_of (set_fields (doc_set data k v) d) k = Some v"
    by (simp add: map_of_set_fields map_add_def)
  with e assms(2) show False by simp
qed

lemma update_project_projects:
  "projects (snd (update_project pid data w)) =
     (case ObjectId pid of
        Inl e \<Rightarrow> projects w
      | Inr i \<Rightarrow>
          if next_fault w then projects w
          else (case filter (matches [(''_id'', i)]) (projects w) of
                  [] \<Rightarrow> projects w
                | d # _ \<Rightarrow>
                    if map_of (doc_set data ''updated_at'' (VDate (fst (read_clock w)))) ''_id'' \<noteq> None \<and>
                       map_of (doc_set data ''updated_at'' (VDate (fst (read_clock w)))) ''_id'' \<noteq> map_of d ''_id''
                    then projects w
                    else fst (update_first (matches [(''_id'', i)])
                           (set_fields (doc_set data ''updated_at'' (VDate (fst (read_clock w)))))
                           (projects w))))"
  unfolding update_project_def try_default_snd
  by (simp add: io_bind_def io_of_def io_ret_def utcnow_apply update_one_apply
      Let_def skip_trip_def split: sum.splits list.splits)

lemma update_project_unknown:
  assumes "find_project pid w = None"
  shows "fst (update_project pid data w) = Inr False \<and>
         projects (snd (update_project pid data w)) = projects w"
  using assms
  by (auto simp: find_project_def update_project_fst update_project_projects case_filter_find
      split: sum.splits)

lemma update_project_true_modified:
  assumes "fst (update_project pid data w) = Inr True"
  shows "projects (snd (update_project pid data w)) \<noteq> projects w"
  using assms
  by (auto simp: update_project_fst update_project_projects update_first_unchanged update_first_count
      split: sum.splits list.splits if_splits)

lemma update_project_identical:
  assumes "find_project pid w = Some d" and "\<not> next_fault w" and "distinct (map fst data)"
    and "matches data d"
  shows "fst (update_project pid data w) =
           Inr (map_of d ''updated_at'' \<noteq> Some (VDate (fst (read_clock w))))"
proof -
  from assms(1) obtain i where i: "ObjectId pid = Inr i"
      and f: "List.find (matches [(''_id'', i)]) (projects w) = Some d"
    by (auto simp: find_project_def split: sum.splits)
  let ?data = "doc_set data ''updated_at'' (VDate (fst (read_clock w)))"
  have id: "\<not> (map_of ?data ''_id'' \<noteq> None \<and> map_of ?data ''_id'' \<noteq> map_of d ''_id'')"
  proof (cases "map_of data ''_id''")
    case None
    then show ?thesis by (simp add: map_of_doc_set)
  next
    case (Some v)
    then have "(''_id'', v) \<in> set data" by (rule map_of_SomeD)
    with assms(4) have "map_of d ''_id'' = Some v"
      by (auto simp: matches_def list_all_iff)
    with Some show ?thesis by (simp add: map_of_doc_set)
  qed
  have ch: "set_fields ?data d \<noteq> d \<longleftrightarrow> map_of d ''updated_at'' \<noteq> Some (VDate (fst (read_clock w)))"
    using set_fields_stamp_changes [OF assms(3)] set_fields_same [OF matches_doc_set [OF assms(4)]]
    by blast
  show ?thesis
    unfolding update_project_fst case_filter_find
    using i f assms(2) id ch by simp
qed

text \<open>
  C2, as the code has it. On an existing project a call whose data is identical to
  the stored fields returns true: the gateway adds \<^verbatim>\<open>updated_at = utcnow()\<close>
  to the data, so the document is modified.
\<close>

theorem update_project_identical_data_counterexample:
  "find_project ''00000000000000000000000a'' w_projects = Some project_a \<and>
   matches [(''title'', VStr ''Churn'')] project_a \<and>
   fst (update_project ''00000000000000000000000a'' [(''title'', VStr ''Churn'')] w_projects) =
     Inr True"
  by (simp add: update_project_fst find_project_def ObjectId_def is_hex_def hex_lower_def
      w_projects_def w_empty_def matches_def project_a_def project_b_def next_fault_def
      read_clock_def doc_set_def set_fields_def)

text \<open>
  C2, amended. \<^verbatim>\<open>update_project\<close> returns true only if a document was
  modified: for every call with an unknown id (or one that is no ObjectId) it returns
  false and leaves the projects as they are, and whenever it returns true the projects
  have changed. For a call on an existing project whose data is identical to the stored
  fields, on a round trip that succeeds, it returns false exactly when the stored
  \<^verbatim>\<open>updated_at\<close> already is the reading of the clock, and true otherwise.
\<close>

theorem update_project_true_only_if_modified:
  "(find_project pid w = None \<longrightarrow>
      fst (update_project pid data w) = Inr False \<and>
      projects (snd (update_project pid data w)) = projects w) \<and>
   (fst (update_project pid data w) = Inr True \<longrightarrow>
      projects (snd (update_project pid data w)) \<noteq> projects w) \<and>
   (\<forall>d. find_project pid w = Some d \<and> \<not> next_fault w \<and> distinct (map fst data) \<and>
        matches data d \<longrightarrow>
        fst (update_project pid data w) =
          Inr (map_of d ''updated_at'' \<noteq> Some (VDate (fst (read_clock w)))))"
  using update_project_unknown [of pid w data] update_project_true_modified [of pid data w]
    update_project_identical [of pid w _ data]
  by blast

theorem update_project_true_only_if_modified_witness:
  "find_project ''000000000000000000000000'' w_projects = None \<and>
   fst (update_project ''000000000000000000000000'' [(''title'', VStr ''Churn'')] w_projects) =
     Inr False \<and>
   find_project ''00000000000000000000000a'' w_projects = Some project_a \<and>
   \<not> next_fault w_projects \<and> distinct (map fst [(''title'', VStr ''Churn'')]) \<and>
   matches [(''title'', VStr ''Churn'')] project_a \<and>
   fst (update_project ''00000000000000000000000a'' [(''title'', VStr ''Churn'')] w_projects) =
     Inr (map_of project_a ''updated_at'' \<noteq> Some (VDate (fst (read_clock w_projects))))"
proof -
  have h: "find_project ''000000000000000000000000'' w_projects = None"
    "find_project ''00000000000000000000000a'' w_projects = Some project_a"
    "\<not> next_fault w_projects" "distinct (map fst [(''title'', VStr ''Churn'')])"
    "matches [(''title'', VStr ''Churn'')] project_a"
    by (simp_all add: find_project_def ObjectId_def is_hex_def hex_lower_def w_projects_def
        w_empty_def matches_def project_a_def project_b_def next_fault_def)
  from h update_project_true_only_if_modified
    [of "''000000000000000000000000''" w_projects "[(''title'', VStr ''Churn'')]"]
    update_project_true_only_if_modified
    [of "''00000000000000000000000a''" w_projects "[(''title'', VStr ''Churn'')]"]
  show ?thesis by blast
qed

subsection \<open>Creating and updating the profile\<close>

lemma matches_Nil [simp]: "matches [] d"
  by (simp add: matches_def)

lemma read_clock_skip:
  "fst (read_clock (skip_trip w)) = fst (read_clock w)"
  "snd (read_clock (skip_trip w)) = skip_trip (snd (read_clock w))"
  by (auto simp: read_clock_def skip_trip_def split: list.splits)

lemma next_fault_skip_clock [simp]:
  "next_fault (skip_trip (snd (read_clock w))) = next_fault (skip_trip w)"
  by (auto simp: read_clock_def skip_trip_def next_fault_def split: list.splits)

lemma next_fault_oids [simp]: "next_fault (w\<lparr>oids := n\<rparr>) = next_fault w"
  by (simp add: next_fault_def)

lemma insert_one_apply:
  "insert_one c data w =
     (if next_fault w then (Inl StoreFault, skip_trip w)
      else case map_of data ''_id'' of
             None \<Rightarrow>
               (Inr (VOid (oid_of_nat (oids w))),
                coll_put c (coll c w @ [(''_id'', VOid (oid_of_nat (oids w))) # data])
                  ((skip_trip w)\<lparr>oids := Suc (oids w)\<rparr>))
           | Some i \<Rightarrow>
               if list_ex (\<lambda>d. map_of d ''_id'' = Some i) (coll c w)
               then (Inl DuplicateKeyError, skip_trip w)
               else (Inr i, coll_put c (coll c w @ [data]) (skip_trip w)))"
  by (simp add: insert_one_def round_trip_apply io_defs Let_def split: option.splits)

lemma create_or_update_profile_insert:
  assumes "profile w = []" and "\<not> next_fault w" and "\<not> next_fault (skip_trip w)"
    and "map_of data ''_id'' = None"
  shows "fst (create_or_update_profile data w) = Inr True"
    and "profile (snd (create_or_update_profile data w)) =
           [(''_id'', VOid (oid_of_nat (oids w))) #
            doc_set (doc_set data ''updated_at'' (VDate (fst (read_clock w))))
              ''created_at'' (VDate (fst (read_clock (snd (read_clock w)))))]"
  using assms
  unfolding create_or_update_profile_def try_default_fst try_default_snd
  by (simp_all add: io_bind_def io_of_def io_ret_def utcnow_apply find_one_apply insert_one_apply
      Let_def read_clock_skip map_of_doc_set)

lemma update_first_head: "P d \<Longrightarrow> fst (update_first P f (d # ds)) = f d # ds"
  by simp

lemma create_or_update_profile_update:
  assumes "profile w = d # ds" and "map_of d ''_id'' = Some i"
    and "\<not> next_fault w" and "\<not> next_fault (skip_trip w)"
    and "map_of data ''_id'' = None"
  shows "fst (create_or_update_profile data w) = Inr True"
    and "profile (snd (create_or_update_profile data w)) =
           set_fields (doc_set data ''updated_at'' (VDate (fst (read_clock w)))) d # ds"
proof -
  from assms(2) have ne: "d \<noteq> []" by auto
  have m: "matches [(''_id'', i)] d" using assms(2) by (simp add: matches_def)
  show "fst (create_or_update_profile data w) = Inr True"
    using assms ne m
    unfolding create_or_update_profile_def try_default_fst
    by (simp add: io_bind_def io_of_def io_ret_def utcnow_apply find_one_apply update_one_apply
        Let_def map_of_doc_set doc_getitem_def)
  show "profile (snd (create_or_update_profile data w)) =
           set_fields (doc_set data ''updated_at'' (VDate (fst (read_clock w)))) d # ds"
    using assms ne m
    unfolding create_or_update_profile_def try_default_snd
    by (simp add: io_bind_def io_of_def io_ret_def utcnow_apply find_one_apply update_one_apply
        Let_def map_of_doc_set doc_getitem_def)
qed

lemma map_of_set_fields_distinct:
  "distinct (map fst data) \<Longrightarrow>
   map_of (set_fields data d) k = (case map_of data k of None \<Rightarrow> map_of d k | Some v \<Rightarrow> Some v)"
  by (simp add: map_of_set_fields distinct_rev_map_of map_add_def)


lemma handler_snd:
  "snd (try_except (io_bind m (\<lambda>ok. if ok then io_ret r else io_raise e)) (\<lambda>e. io_raise e') w)
     = snd (m w)"
  by (cases "m w") (auto simp: io_defs split: sum.splits)

lemma upsert_profile_preserves_created_at:
  assumes "profile w = d # ds" and "map_of d ''_id'' = Some i"
    and "\<not> next_fault w" and "\<not> next_fault (skip_trip w)"
    and "map_of data ''_id'' = None" and "distinct (map fst data)"
    and "map_of data ''created_at'' = None"
  shows "map_of (hd (profile (snd (create_or_update_profile data w)))) ''created_at'' =
           map_of d ''created_at''"
    and "map_of (hd (profile (snd (create_or_update_profile data w)))) ''updated_at'' =
           Some (VDate (fst (read_clock w)))"
proof -
  have dd: "distinct (map fst (doc_set data ''updated_at'' (VDate (fst (read_clock w)))))"
    using assms(6) by (simp add: doc_set_def distinct_update)
  show "map_of (hd (profile (snd (create_or_update_profile data w)))) ''created_at'' =
           map_of d ''created_at''"
    using assms(7)
    by (simp add: create_or_update_profile_update(2) [OF assms(1-5)]
        map_of_set_fields_distinct [OF dd] map_of_doc_set)
  show "map_of (hd (profile (snd (create_or_update_profile data w)))) ''updated_at'' =
           Some (VDate (fst (read_clock w)))"
    by (simp add: create_or_update_profile_update(2) [OF assms(1-5)]
        map_of_set_fields_distinct [OF dd] map_of_doc_set)
qed

lemma put_profile_sets_created_at:
  assumes "profile w = d # ds" and "map_of d ''_id'' = Some i"
    and "\<not> next_fault w" and "\<not> next_fault (skip_trip w)"
  shows "map_of (hd (profile (snd (update_profile_handler p w)))) ''created_at'' =
           Some (VDate (p_created_at p))"
proof -
  have n: "map_of (Profile_dict p) ''_id'' = None"
    by (simp add: Profile_dict_def)
  have dd: "distinct (map fst (doc_set (Profile_dict p) ''updated_at'' (VDate (fst (read_clock w)))))"
    by (simp add: doc_set_def distinct_update Profile_dict_def)
  show ?thesis
    unfolding update_profile_handler_def handler_snd
    by (simp add: create_or_update_profile_update(2) [OF assms n]
        map_of_set_fields_distinct [OF dd] map_of_doc_set)
       (simp add: Profile_dict_def)
qed

text \<open>
  C4, as the code has it. \<^verbatim>\<open>create_or_update_profile\<close> reads the clock twice on
  the insert path: once for \<^verbatim>\<open>updated_at\<close> before it looks for an existing
  profile, and once for \<^verbatim>\<open>created_at\<close> after that round trip. With readings
  100 and 250 the inserted document has \<^verbatim>\<open>updated_at = 100\<close> and
  \<^verbatim>\<open>created_at = 250\<close>.
\<close>

theorem upsert_profile_insert_counterexample:
  "profile w_two_readings = [] \<and>
   map_of (hd (profile (snd (create_or_update_profile [(''id'', VStr ''p1'')] w_two_readings))))
     ''updated_at'' = Some (VDate 100) \<and>
   map_of (hd (profile (snd (create_or_update_profile [(''id'', VStr ''p1'')] w_two_readings))))
     ''created_at'' = Some (VDate 250)"
proof -
  have h: "profile w_two_readings = []" "\<not> next_fault w_two_readings"
    "\<not> next_fault (skip_trip w_two_readings)" "map_of [(''id'', VStr ''p1'')] ''_id'' = None"
    by (simp_all add: w_two_readings_def w_empty_def next_fault_def skip_trip_def)
  have r: "fst (read_clock w_two_readings) = 100"
    "fst (read_clock (snd (read_clock w_two_readings))) = 250"
    by (simp_all add: w_two_readings_def w_empty_def read_clock_def)
  show ?thesis
    by (simp add: create_or_update_profile_insert(2) [OF h] map_of_doc_set r h(1))
qed

text \<open>
  C4, amended. When \<^verbatim>\<open>create_or_update_profile\<close> is called, no profile
  document exists and the store does not fault, it returns true and the one inserted
  document has \<^verbatim>\<open>updated_at\<close> equal to the first reading of the clock (taken
  at the start of the call) and \<^verbatim>\<open>created_at\<close> equal to the second (taken
  after the existence check, before the insert); the two fields are equal exactly when
  the two readings are.
\<close>

theorem upsert_profile_insert_timestamps:
  assumes "profile w = []" and "\<not> next_fault w" and "\<not> next_fault (skip_trip w)"
    and "map_of data ''_id'' = None"
  shows "fst (create_or_update_profile data w) = Inr True \<and>
         (\<exists>new. profile (snd (create_or_update_profile data w)) = [new] \<and>
            map_of new ''updated_at'' = Some (VDate (fst (read_clock w))) \<and>
            map_of new ''created_at'' = Some (VDate (fst (read_clock (snd (read_clock w))))))"
  by (simp add: create_or_update_profile_insert [OF assms] map_of_doc_set)

theorem upsert_profile_insert_timestamps_witness:
  "profile w_two_readings = [] \<and> \<not> next_fault w_two_readings \<and>
   \<not> next_fault (skip_trip w_two_readings) \<and>
   map_of [(''id'', VStr ''p1'')] ''_id'' = None \<and>
   fst (create_or_update_profile [(''id'', VStr ''p1'')] w_two_readings) = Inr True \<and>
   (\<exists>new. profile (snd (create_or_update_profile [(''id'', VStr ''p1'')] w_two_readings)) = [new] \<and>
      map_of new ''updated_at'' = Some (VDate (fst (read_clock w_two_readings))) \<and>
      map_of new ''created_at'' =
        Some (VDate (fst (read_clock (snd (read_clock w_two_readings))))))"
proof -
  have h: "profile w_two_readings = []" "\<not> next_fault w_two_readings"
    "\<not> next_fault (skip_trip w_two_readings)" "map_of [(''id'', VStr ''p1'')] ''_id'' = None"
    by (simp_all add: w_two_readings_def w_empty_def next_fault_def skip_trip_def)
  from h upsert_profile_insert_timestamps [OF h] show ?thesis
    by blast
qed

text \<open>
  C3. The gateway stamps \<^verbatim>\<open>created_at\<close> only on the insert path (lemma
  \<open>upsert_profile_preserves_created_at\<close>: data without a \<^verbatim>\<open>created_at\<close>
  leaves the stored one alone), but the handler of PUT /profile passes
  \<^verbatim>\<open>profile.dict()\<close>, which always holds the \<^verbatim>\<open>created_at\<close> of the
  validated body (the time of the request when the body gives none), and
  \<^verbatim>\<open>$set\<close> writes it over the stored one (lemma
  \<open>put_profile_sets_created_at\<close>). On a store whose profile was created at time 100,
  a PUT validated at time 490 answers success and leaves \<^verbatim>\<open>created_at = 490\<close>,
  \<^verbatim>\<open>updated_at = 500\<close>.
\<close>

theorem put_profile_overwrites_created_at:
  "map_of (hd (profile w_profile)) ''created_at'' = Some (VDate 100) \<and>
   fst (update_profile_handler profile_put w_profile) =
     Inr \<lparr>r_success = True, r_message = ''Profile updated successfully'', r_data = None\<rparr> \<and>
   map_of (hd (profile (snd (update_profile_handler profile_put w_profile)))) ''created_at'' =
     Some (VDate 490) \<and>
   map_of (hd (profile (snd (update_profile_handler profile_put w_profile)))) ''updated_at'' =
     Some (VDate 500)"
proof -
  have h: "profile w_profile = profile_doc # []"
    "map_of profile_doc ''_id'' = Some (VOid ''00000000000000000000000c'')"
    "\<not> next_fault w_profile" "\<not> next_fault (skip_trip w_profile)"
    by (simp_all add: w_profile_def w_empty_def profile_doc_def next_fault_def skip_trip_def)
  have n: "map_of (Profile_dict profile_put) ''_id'' = None"
    by (simp add: Profile_dict_def)
  have dd: "distinct (map fst (doc_set (Profile_dict profile_put) ''updated_at''
              (VDate (fst (read_clock w_profile)))))"
    by (simp add: doc_set_def distinct_update Profile_dict_def)
  have r: "fst (read_clock w_profile) = 500"
    by (simp add: w_profile_def w_empty_def read_clock_def)
  have c: "map_of (hd (profile w_profile)) ''created_at'' = Some (VDate 100)"
    by (simp add: h(1) profile_doc_def)
  have ok: "fst (update_profile_handler profile_put w_profile) =
     Inr \<lparr>r_success = True, r_message = ''Profile updated successfully'', r_data = None\<rparr>"
    by (simp add: update_profile_handler_def handler_500 create_or_update_profile_update(1) [OF h n])
  have cr: "map_of (hd (profile (snd (update_profile_handler profile_put w_profile)))) ''created_at'' =
     Some (VDate 490)"
    using put_profile_sets_created_at [OF h, of profile_put] by (simp add: profile_put_def)
  have up: "map_of (hd (profile (snd (update_profile_handler profile_put w_profile)))) ''updated_at'' =
     Some (VDate 500)"
    unfolding update_profile_handler_def handler_snd
    by (simp add: create_or_update_profile_update(2) [OF h n] r
        map_of_set_fields_distinct [OF dd [unfolded r]] map_of_doc_set)
  from c ok cr up show ?thesis by simp
qed

subsection \<open>Contact messages\<close>

lemma length_hex [simp]: "length (hex k n) = k"
  by (induction k arbitrary: n) auto

lemma oid_of_nat_nonempty [simp]: "oid_of_nat n \<noteq> []"
proof
  assume "oid_of_nat n = []"
  then have "length (oid_of_nat n) = 0" by simp
  then show False by (simp add: oid_of_nat_def)
qed






lemma set_sort_docs [simp]: "set (sort_docs k dir ds) = set ds"
  by (simp add: sort_docs_def)








subsection \<open>Seeding\<close>

lemma set_tl_subset: "set (tl xs) \<subseteq> set xs"
  by (cases xs) auto


lemma grows_refl [simp]: "grows w w"
  by (simp add: grows_def)


























subsection \<open>Analytics statistics\<close>

lemma stats_cases:
  assumes "fst (get_analytics_stats w) = Inr s"
  shows "s = zero_stats \<or>
         (list_all2 (\<lambda>v r. recent_visit v = Inr r) (recent_docs w) (recent_visits s) \<and>
          list_all2 (\<lambda>g p. top_page g = Inr p) (top_groups w) (top_pages s))"
  using assms unfolding get_analytics_stats_fst recent_docs_def top_groups_def
  by (auto split: if_splits sum.splits dest!: map_exn_Inr)








lemma group_count_docs:
  "group_count ''page'' (visits w) =
     map (\<lambda>v. [(''_id'', v), (''count'', VInt (int (page_count w v)))])
       (remdups (map page_of (visits w)))"
  by (simp add: group_count_def page_count_def page_of_def Let_def cong: map_cong)

lemma top_page_group:
  "top_page [(''_id'', v), (''count'', VInt (int (page_count w v)))] = Inr (page_entry w v)"
  by (simp add: top_page_def page_entry_def doc_getitem_def)

lemma group_count_map: "group_count ''page'' (visits w) = map (group_of w) (remdups (map page_of (visits w)))"
  by (simp add: group_count_docs group_of_def)

lemma top_groups_subset: "set (top_groups w) \<subseteq> group_of w ` set (map page_of (visits w))"
proof -
  have "set (top_groups w) \<subseteq> set (sort_docs ''count'' (- 1) (group_count ''page'' (visits w)))"
    unfolding top_groups_def by (rule set_take_subset)
  then show ?thesis
    by (simp add: group_count_map)
qed

lemma id_of_group [simp]: "doc_get (group_of w v) ''_id'' VNone = v"
  by (simp add: group_of_def doc_get_def)

lemma top_groups_map: "top_groups w = map (group_of w) (top_values w)"
proof -
  have "\<forall>g\<in>set (top_groups w). group_of w (doc_get g ''_id'' VNone) = g"
    using top_groups_subset [of w] by auto
  then have "map (\<lambda>g. group_of w (doc_get g ''_id'' VNone)) (top_groups w) = top_groups w"
    by (simp add: map_idI)
  then show ?thesis
    by (simp add: top_values_def comp_def)
qed


lemma top_page_group_of: "top_page (group_of w v) = Inr (page_entry w v)"
  by (simp add: group_of_def top_page_group)

lemma map_exn_map: "(\<And>x. f (g x) = Inr (h x)) \<Longrightarrow> map_exn f (map g xs) = Inr (map h xs)"
  by (induction xs) simp_all

lemma top_pages_total: "map_exn top_page (top_groups w) = Inr (map (page_entry w) (top_values w))"
  by (subst top_groups_map)
    (rule map_exn_map [where f = top_page and g = "group_of w" and h = "page_entry w"],
      rule top_page_group_of)


lemma length_sort_docs [simp]: "length (sort_docs k dir ds) = length ds"
  by (simp add: sort_docs_def)










lemma fault_five:
  "(next_fault w \<or> next_fault (skip_trip w) \<or> next_fault (skip_trip (skip_trip w)) \<or>
    next_fault (skip_trip (skip_trip (skip_trip w))) \<or>
    next_fault (skip_trip (skip_trip (skip_trip (skip_trip w))))) \<longleftrightarrow>
   True \<in> set (take 5 (faults w))"
proof -
  have "take 5 (faults w) = take (Suc (Suc (Suc (Suc (Suc 0))))) (faults w)"
    by (simp add: eval_nat_numeral)
  then show ?thesis
    by (simp only: faults_take_Suc) simp
qed

lemma stats_form:
  "fst (get_analytics_stats w) =
     Inr (if True \<in> set (take 5 (faults w)) then zero_stats
          else (case map_exn recent_visit (recent_docs w) of
                  Inl e \<Rightarrow> zero_stats
                | Inr recent \<Rightarrow>
                    \<lparr>total_visits = length (visits w),
                     total_downloads =
                       length (filter (matches [(''event_type'', VStr ''download'')]) (analytics w)),
                     total_contacts = length (contact_messages w),
                     recent_visits = recent,
                     top_pages = map (page_entry w) (top_values w)\<rparr>))"
  unfolding get_analytics_stats_fst fault_five recent_docs_def [symmetric]
    top_groups_def [symmetric] top_pages_total
  by (simp split: sum.splits)

















text \<open>
  The statistics of three visits and one download: a page that is present but null
  stays null in \<open>recent_visits\<close>, and groups with the missing page under "/" in
  \<open>top_pages\<close>.
\<close>

lemma analytics_stats_example:
  "fst (get_analytics_stats w_visits) =
     Inr \<lparr>total_visits = 3, total_downloads = 1, total_contacts = 0,
          recent_visits =
            [[(''page'', VNone), (''timestamp'', VDate 30), (''ip_address'', VStr ''unknown'')],
             [(''page'', VStr ''/''), (''timestamp'', VDate 20), (''ip_address'', VStr ''10.0.0.2'')],
             [(''page'', VStr ''/projects''), (''timestamp'', VDate 10),
              (''ip_address'', VStr ''10.0.0.1'')]],
          top_pages =
            [[(''page'', VStr ''/''), (''visits'', VInt 2)],
             [(''page'', VStr ''/projects''), (''visits'', VInt 1)]]\<rparr>"
  by (simp add: stats_form w_visits_def w_empty_def visits_def visit_query_def matches_def
      visit_home_def visit_null_page_def visit_no_page_def download_event_def
      recent_docs_def sort_docs_def sort_val_def recent_visit_def doc_getitem_def doc_get_def
      page_entry_def top_values_def top_groups_def group_count_def page_count_def page_of_def
      py_or_def less_eq_prod_def)

end
